theory Spec2Isabelle
  imports Complex_Main "HOL-Library.Sublist"
begin

section \<open>VisionScribe: text similarity, text deduplication and frame deduplication\<close>

text \<open>
  A shallow embedding of \<^verbatim>\<open>utils/text_similarity.py\<close>,
  \<^verbatim>\<open>text_deduplicator.py\<close> and \<^verbatim>\<open>VideoProcessor.deduplicate_frames\<close>.

  Conventions of the embedding.
  \<^item> A Python \<^verbatim>\<open>str\<close> is a \<open>string\<close>; each \<open>char\<close> stands for the Unicode code
    point of the same number, so the model covers the strings over U+0000..U+00FF.
    Whitespace, word characters and lower-casing are Python's on that range.
  \<^item> A Python \<^verbatim>\<open>float\<close> is a \<open>real\<close>: rounding and NaN are not modelled.
  \<^item> A Python \<^verbatim>\<open>int\<close> is an \<open>int\<close>; a length or an index is a \<open>nat\<close>.
  \<^item> Library code outside the repository (scikit-learn, OpenCV, scikit-image) is a
    parameter; an exception it raises is the value \<open>None\<close>.
\<close>

subsection \<open>Python string primitives\<close>

definition isspace :: "char \<Rightarrow> bool" where
  \<comment> \<open>\<^verbatim>\<open>str.isspace\<close> and the regular expression class \<^verbatim>\<open>\s\<close>\<close>
  "isspace c = (of_char c \<in> {9, 10, 11, 12, 13, 28, 29, 30, 31, 32, 133, 160 :: nat})"

definition isword :: "char \<Rightarrow> bool" where
  \<comment> \<open>the regular expression class \<^verbatim>\<open>\w\<close>: alphanumeric or underscore\<close>
  "isword c =
     (let n = (of_char c :: nat) in
      (48 \<le> n \<and> n \<le> 57) \<or> (65 \<le> n \<and> n \<le> 90) \<or> n = 95 \<or> (97 \<le> n \<and> n \<le> 122) \<or>
      n \<in> {170, 178, 179, 181, 185, 186, 188, 189, 190} \<or>
      (192 \<le> n \<and> n \<le> 214) \<or> (216 \<le> n \<and> n \<le> 246) \<or> 248 \<le> n)"

definition lower_char :: "char \<Rightarrow> char" where
  "lower_char c =
     (let n = (of_char c :: nat) in
      if (65 \<le> n \<and> n \<le> 90) \<or> (192 \<le> n \<and> n \<le> 214) \<or> (216 \<le> n \<and> n \<le> 222)
      then char_of (n + 32) else c)"

definition lower :: "string \<Rightarrow> string" where
  \<comment> \<open>\<^verbatim>\<open>str.lower\<close>\<close>
  "lower s = map lower_char s"

fun split_from :: "string \<Rightarrow> string \<Rightarrow> string list" where
  \<comment> \<open>the scan of \<^verbatim>\<open>str.split()\<close>; the first argument is the word being read, reversed\<close>
  "split_from cur [] = (if cur = [] then [] else [rev cur])"
| "split_from cur (c # cs) =
     (if isspace c
      then (if cur = [] then split_from [] cs else rev cur # split_from [] cs)
      else split_from (c # cur) cs)"

definition split :: "string \<Rightarrow> string list" where
  \<comment> \<open>\<^verbatim>\<open>str.split()\<close> with no separator: the maximal runs of non-whitespace\<close>
  "split s = split_from [] s"

fun join :: "string \<Rightarrow> string list \<Rightarrow> string" where
  \<comment> \<open>\<^verbatim>\<open>sep.join(words)\<close>\<close>
  "join sep [] = []"
| "join sep [w] = w"
| "join sep (w # v # ws) = w @ sep @ join sep (v # ws)"

subsection \<open>\<^verbatim>\<open>clean_text\<close>\<close>

definition kept_punctuation :: "char list" where
  \<comment> \<open>the characters listed after \<^verbatim>\<open>\w\s\<close> in the negated class of \<^verbatim>\<open>re.sub\<close>\<close>
  "kept_punctuation =
     ''-.()[]{}:;#@$%^&*+=<>/?!'' @ [CHR 0x27, CHR 0x22] @ ''~'' @ [CHR 0x60] @ ''|'' @ [CHR 0x5C]"

definition kept :: "char \<Rightarrow> bool" where
  "kept c = (isword c \<or> isspace c \<or> c \<in> set kept_punctuation)"

definition clean_text :: "string \<Rightarrow> string" where
  "clean_text text0 =
     (let text1 = join '' '' (split text0);
          text2 = filter kept text1
      in lower text2)"

subsection \<open>The scorers\<close>

definition cosine_similarity :: "(string \<Rightarrow> string \<Rightarrow> real option) \<Rightarrow> string \<Rightarrow> string \<Rightarrow> real" where
  \<comment> \<open>\<^verbatim>\<open>_cosine_similarity\<close>. The parameter is scikit-learn's part: the TF-IDF vectors of
      the two texts and their cosine, \<open>None\<close> when it raises (the \<^verbatim>\<open>except\<close> branch).\<close>
  "cosine_similarity tfidf text1 text2 =
     (case tfidf text1 text2 of Some similarity \<Rightarrow> similarity | None \<Rightarrow> 0)"

definition jaccard_similarity :: "string \<Rightarrow> string \<Rightarrow> real" where
  \<comment> \<open>\<^verbatim>\<open>_jaccard_similarity\<close>\<close>
  "jaccard_similarity text1 text2 =
     (let words1 = set (split text1);
          words2 = set (split text2);
          intersection = card (words1 \<inter> words2);
          union = card (words1 \<union> words2)
      in if union = 0 then 0 else real intersection / real union)"

definition word_overlap_similarity :: "string \<Rightarrow> string \<Rightarrow> real" where
  \<comment> \<open>\<^verbatim>\<open>_word_overlap_similarity\<close>\<close>
  "word_overlap_similarity text1 text2 =
     (let words1 = split text1;
          words2 = split text2
      in if words1 = [] \<or> words2 = [] then 0
         else let overlap = card (set words1 \<inter> set words2);
                  total = card (set words1 \<union> set words2)
              in if total > 0 then real overlap / real total else 0)"

text \<open>
  \<^verbatim>\<open>_levenshtein_similarity\<close> fills a matrix \<^verbatim>\<open>dp\<close> of \<open>m + 1\<close> rows and \<open>n + 1\<close>
  columns. Each \<^verbatim>\<open>for\<close> loop is a \<open>fold\<close> over its range; an assignment
  \<^verbatim>\<open>dp[i][j] = v\<close> updates row \<open>i\<close> at column \<open>j\<close>. Every index the loops use is in
  range (\<open>i \<le> m\<close>, \<open>j \<le> n\<close>), so no access raises.
\<close>

definition dp_create :: "nat \<Rightarrow> nat \<Rightarrow> int list list" where
  \<comment> \<open>\<^verbatim>\<open>[[0] * (n + 1) for _ in range(m + 1)]\<close>\<close>
  "dp_create m n = replicate (m + 1) (replicate (n + 1) 0)"

definition dp_init_column :: "nat \<Rightarrow> int list list \<Rightarrow> int list list" where
  \<comment> \<open>\<^verbatim>\<open>for i in range(m + 1): dp[i][0] = i\<close>\<close>
  "dp_init_column m dp = fold (\<lambda>i dp. dp[i := (dp ! i)[0 := int i]]) [0..<m + 1] dp"

definition dp_init_row :: "nat \<Rightarrow> int list list \<Rightarrow> int list list" where
  \<comment> \<open>\<^verbatim>\<open>for j in range(n + 1): dp[0][j] = j\<close>\<close>
  "dp_init_row n dp = fold (\<lambda>j dp. dp[0 := (dp ! 0)[j := int j]]) [0..<n + 1] dp"

definition dp_cell :: "'a list \<Rightarrow> 'a list \<Rightarrow> int list list \<Rightarrow> nat \<Rightarrow> nat \<Rightarrow> int" where
  \<comment> \<open>the value the loop body assigns to \<^verbatim>\<open>dp[i][j]\<close>\<close>
  "dp_cell text1 text2 dp i j =
     (if text1 ! (i - 1) = text2 ! (j - 1) then dp ! (i - 1) ! (j - 1)
      else 1 + min (dp ! (i - 1) ! j) (min (dp ! i ! (j - 1)) (dp ! (i - 1) ! (j - 1))))"

definition dp_fill_row :: "'a list \<Rightarrow> 'a list \<Rightarrow> nat \<Rightarrow> nat \<Rightarrow> int list list \<Rightarrow> int list list" where
  \<comment> \<open>the inner loop \<^verbatim>\<open>for j in range(1, n + 1)\<close> at row \<open>i\<close>\<close>
  "dp_fill_row text1 text2 n i dp =
     fold (\<lambda>j dp. dp[i := (dp ! i)[j := dp_cell text1 text2 dp i j]]) [1..<n + 1] dp"

definition dp_fill :: "'a list \<Rightarrow> 'a list \<Rightarrow> nat \<Rightarrow> nat \<Rightarrow> int list list \<Rightarrow> int list list" where
  \<comment> \<open>the outer loop \<^verbatim>\<open>for i in range(1, m + 1)\<close>\<close>
  "dp_fill text1 text2 m n dp = fold (dp_fill_row text1 text2 n) [1..<m + 1] dp"

definition levenshtein_matrix :: "'a list \<Rightarrow> 'a list \<Rightarrow> int list list" where
  "levenshtein_matrix text1 text2 =
     (let m = length text1; n = length text2
      in dp_fill text1 text2 m n (dp_init_row n (dp_init_column m (dp_create m n))))"

definition levenshtein_similarity :: "'a list \<Rightarrow> 'a list \<Rightarrow> real" where
  \<comment> \<open>\<^verbatim>\<open>_levenshtein_similarity\<close>\<close>
  "levenshtein_similarity text1 text2 =
     (let m = length text1; n = length text2;
          dp = levenshtein_matrix text1 text2;
          max_len = max m n
      in if max_len = 0 then 1 else 1 - real_of_int (dp ! m ! n) / real max_len)"

subsection \<open>\<^verbatim>\<open>calculate_text_similarity\<close>\<close>

definition calculate_text_similarity ::
  "(string \<Rightarrow> string \<Rightarrow> real option) \<Rightarrow> string \<Rightarrow> string \<Rightarrow> string \<Rightarrow> real" where
  "calculate_text_similarity tfidf text1 text2 method =
     (if text1 = [] \<or> text2 = [] then 0
      else let text1 = clean_text text1;
               text2 = clean_text text2
           in if method = ''cosine'' then cosine_similarity tfidf text1 text2
              else if method = ''jaccard'' then jaccard_similarity text1 text2
              else if method = ''levenshtein'' then levenshtein_similarity text1 text2
              else if method = ''word_overlap'' then word_overlap_similarity text1 text2
              else cosine_similarity tfidf text1 text2)"

definition supported_methods :: "string set" where
  \<comment> \<open>the method names \<^verbatim>\<open>calculate_text_similarity\<close> tests for\<close>
  "supported_methods = {''cosine'', ''jaccard'', ''levenshtein'', ''word_overlap''}"

subsection \<open>Reference definitions for the similarity claims\<close>

text \<open>
  The Levenshtein distance by the standard recurrence on prefixes: \<open>lev_rec a b i j\<close> is
  the distance between the first \<open>i\<close> characters of \<open>a\<close> and the first \<open>j\<close> characters of
  \<open>b\<close>, the least of a deletion, an insertion and a substitution (free when the two
  characters agree).
\<close>

fun lev_rec :: "'a list \<Rightarrow> 'a list \<Rightarrow> nat \<Rightarrow> nat \<Rightarrow> nat" where
  "lev_rec a b 0 j = j"
| "lev_rec a b (Suc i) 0 = Suc i"
| "lev_rec a b (Suc i) (Suc j) =
     min (min (lev_rec a b i (Suc j) + 1) (lev_rec a b (Suc i) j + 1))
         (lev_rec a b i j + (if a ! i = b ! j then 0 else 1))"

definition edit_distance :: "'a list \<Rightarrow> 'a list \<Rightarrow> nat" where
  "edit_distance a b = lev_rec a b (length a) (length b)"

definition token_overlap_spec :: "string \<Rightarrow> string \<Rightarrow> real" where
  \<comment> \<open>size of the intersection of the two token sets over the size of their union\<close>
  "token_overlap_spec text1 text2 =
     (let A = set (split text1); B = set (split text2)
      in if A \<union> B = {} then 0 else real (card (A \<inter> B)) / real (card (A \<union> B)))"

definition dp_wf :: "nat \<Rightarrow> nat \<Rightarrow> int list list \<Rightarrow> bool" where
  \<comment> \<open>the shape of the matrix: \<open>m + 1\<close> rows of \<open>n + 1\<close> entries\<close>
  "dp_wf m n dp = (length dp = Suc m \<and> list_all (\<lambda>r. length r = Suc n) dp)"

subsection \<open>\<^verbatim>\<open>TextDeduplicator.deduplicate_texts\<close>\<close>

text \<open>
  A text block is a \<^verbatim>\<open>Dict[str, Any]\<close>: a map from keys to Python values. The values
  the callers store are strings, numbers, tuples and lists. \<^verbatim>\<open>block["text"]\<close> raises
  \<^verbatim>\<open>KeyError\<close> when the key is absent, and the membership test in the set
  \<^verbatim>\<open>seen_texts\<close> raises \<^verbatim>\<open>TypeError\<close> when the value is not hashable.
\<close>

datatype pyval = PNone | PStr string | PNum real | PTuple "pyval list" | PList "pyval list"

fun hashable :: "pyval \<Rightarrow> bool" where
  "hashable PNone = True"
| "hashable (PStr s) = True"
| "hashable (PNum x) = True"
| "hashable (PTuple vs) = (\<forall>v \<in> set vs. hashable v)"
| "hashable (PList vs) = False"

type_synonym block = "string \<rightharpoonup> pyval"

datatype error = KeyError string | TypeError

record text_deduplicator =
  config :: "string \<rightharpoonup> pyval"

fun dedup_texts_loop :: "block list \<Rightarrow> pyval set \<Rightarrow> block list \<Rightarrow> error + block list" where
  \<comment> \<open>\<^verbatim>\<open>for block in text_blocks\<close>, with the state \<^verbatim>\<open>seen_texts\<close>, \<^verbatim>\<open>unique_blocks\<close>\<close>
  "dedup_texts_loop [] seen_texts unique_blocks = Inr unique_blocks"
| "dedup_texts_loop (block # rest) seen_texts unique_blocks =
     (case block ''text'' of
        None \<Rightarrow> Inl (KeyError ''text'')
      | Some t \<Rightarrow>
          if \<not> hashable t then Inl TypeError
          else if t \<notin> seen_texts
          then dedup_texts_loop rest (insert t seen_texts) (unique_blocks @ [block])
          else dedup_texts_loop rest seen_texts unique_blocks)"

definition deduplicate_texts :: "text_deduplicator \<Rightarrow> block list \<Rightarrow> error + block list" where
  "deduplicate_texts self text_blocks =
     (if text_blocks = [] then Inr [] else dedup_texts_loop text_blocks {} [])"

definition empty_text :: "block \<Rightarrow> bool" where
  \<comment> \<open>the block's text field is the empty string\<close>
  "empty_text b = (b ''text'' = Some (PStr []))"

subsection \<open>\<^verbatim>\<open>VideoProcessor.deduplicate_frames\<close>\<close>

text \<open>
  The dataclass \<^verbatim>\<open>Frame\<close>. Its fields \<^verbatim>\<open>id\<close> and \<^verbatim>\<open>size\<close> are \<open>frame_id\<close> and
  \<open>frame_size\<close> here, since \<open>id\<close> and \<open>size\<close> are constants of HOL.
\<close>

record frame =
  frame_id :: int
  image_path :: string
  timestamp :: real
  text_content :: string
  confidence :: real
  frame_size :: "nat \<times> nat"

text \<open>
  OpenCV and scikit-image as the frame comparison uses them: \<open>imread\<close> gives \<open>None\<close> for
  a file it cannot read, \<open>shape\<close> is (height, width), and \<open>resize\<close> and \<open>ssim\<close> give
  \<open>None\<close> when they raise.
\<close>

record 'img vision =
  imread :: "string \<Rightarrow> 'img option"
  shape :: "'img \<Rightarrow> nat \<times> nat"
  resize :: "'img \<Rightarrow> nat \<times> nat \<Rightarrow> 'img option"
  ssim :: "'img \<Rightarrow> 'img \<Rightarrow> real option"

definition calculate_frame_similarity :: "'img vision \<Rightarrow> frame \<Rightarrow> frame \<Rightarrow> real" where
  \<comment> \<open>\<^verbatim>\<open>_calculate_frame_similarity\<close>; every exception ends in the handler's \<open>0.0\<close>\<close>
  "calculate_frame_similarity cv frame1 frame2 =
     (case (imread cv (image_path frame1), imread cv (image_path frame2)) of
        (Some img1, Some img2) \<Rightarrow>
          (case (shape cv img1, shape cv img2) of
             ((h1, w1), (h2, w2)) \<Rightarrow>
               (case (if h1 \<noteq> h2 \<or> w1 \<noteq> w2 then resize cv img2 (w1, h1) else Some img2) of
                  None \<Rightarrow> 0
                | Some img2' \<Rightarrow>
                    (case ssim cv img1 img2' of None \<Rightarrow> 0 | Some similarity \<Rightarrow> similarity)))
      | _ \<Rightarrow> 0)"

text \<open>
  The two loops of \<^verbatim>\<open>deduplicate_frames\<close>. Each returns, next to its result, the
  comparisons it made, in order, as pairs (candidate, retained frame): a comparison
  reads two image files, so it is an effect of the run.
\<close>

fun compare_with_unique ::
  "'img vision \<Rightarrow> real \<Rightarrow> frame \<Rightarrow> frame list \<Rightarrow> bool \<times> (frame \<times> frame) list" where
  \<comment> \<open>\<^verbatim>\<open>for unique_frame in unique_frames\<close>, left at the first duplicate by \<^verbatim>\<open>break\<close>\<close>
  "compare_with_unique cv threshold frame [] = (False, [])"
| "compare_with_unique cv threshold frame (unique_frame # rest) =
     (let similarity = calculate_frame_similarity cv frame unique_frame
      in if similarity > threshold then (True, [(frame, unique_frame)])
         else (case compare_with_unique cv threshold frame rest of
                 (is_duplicate, compared) \<Rightarrow> (is_duplicate, (frame, unique_frame) # compared)))"

fun dedup_frames_loop ::
  "'img vision \<Rightarrow> real \<Rightarrow> frame list \<Rightarrow> frame list \<Rightarrow> frame list \<times> (frame \<times> frame) list" where
  \<comment> \<open>\<^verbatim>\<open>for i, frame in enumerate(frames[1:], 1)\<close>, with the state \<^verbatim>\<open>unique_frames\<close>\<close>
  "dedup_frames_loop cv threshold unique_frames [] = (unique_frames, [])"
| "dedup_frames_loop cv threshold unique_frames (frame # rest) =
     (case compare_with_unique cv threshold frame unique_frames of
        (is_duplicate, compared) \<Rightarrow>
          (case dedup_frames_loop cv threshold
                  (if \<not> is_duplicate then unique_frames @ [frame] else unique_frames) rest of
             (result, compared') \<Rightarrow> (result, compared @ compared')))"

definition deduplicate_frames_trace ::
  "'img vision \<Rightarrow> frame list \<Rightarrow> real \<Rightarrow> frame list \<times> (frame \<times> frame) list" where
  \<comment> \<open>the returned list and the comparisons made\<close>
  "deduplicate_frames_trace cv frames threshold =
     (case frames of
        [] \<Rightarrow> ([], [])
      | first # rest \<Rightarrow> dedup_frames_loop cv threshold [first] rest)"

definition deduplicate_frames :: "'img vision \<Rightarrow> frame list \<Rightarrow> real \<Rightarrow> frame list" where
  "deduplicate_frames cv frames threshold = fst (deduplicate_frames_trace cv frames threshold)"

subsection \<open>Reference definition for the frame claims\<close>

text \<open>
  The greedy online algorithm in the words of the specification: the first frame is
  retained; a later frame is dropped when \<open>dup\<close> holds between it and some retained
  frame, and retained otherwise.
\<close>

fun greedy_retain :: "('f \<Rightarrow> 'f \<Rightarrow> bool) \<Rightarrow> 'f list \<Rightarrow> 'f list \<Rightarrow> 'f list" where
  "greedy_retain dup retained [] = retained"
| "greedy_retain dup retained (candidate # rest) =
     (if \<exists>r \<in> set retained. dup candidate r then greedy_retain dup retained rest
      else greedy_retain dup (retained @ [candidate]) rest)"

definition greedy_dedupe :: "('f \<Rightarrow> 'f \<Rightarrow> bool) \<Rightarrow> 'f list \<Rightarrow> 'f list" where
  "greedy_dedupe dup frames =
     (case frames of [] \<Rightarrow> [] | first # rest \<Rightarrow> greedy_retain dup [first] rest)"

text \<open>
  The comparisons of the same algorithm: a candidate is compared with the retained
  frames in the order they were retained, up to and including the first one that makes
  it a duplicate, and with all of them when there is none.
\<close>

definition scanned :: "('f \<Rightarrow> 'f \<Rightarrow> bool) \<Rightarrow> 'f \<Rightarrow> 'f list \<Rightarrow> 'f list" where
  "scanned dup candidate retained =
     takeWhile (\<lambda>r. \<not> dup candidate r) retained @
     take 1 (dropWhile (\<lambda>r. \<not> dup candidate r) retained)"

fun greedy_comparisons :: "('f \<Rightarrow> 'f \<Rightarrow> bool) \<Rightarrow> 'f list \<Rightarrow> 'f list \<Rightarrow> ('f \<times> 'f) list" where
  "greedy_comparisons dup retained [] = []"
| "greedy_comparisons dup retained (candidate # rest) =
     map (Pair candidate) (scanned dup candidate retained) @
     (if \<exists>r \<in> set retained. dup candidate r then greedy_comparisons dup retained rest
      else greedy_comparisons dup (retained @ [candidate]) rest)"

definition greedy_trace :: "('f \<Rightarrow> 'f \<Rightarrow> bool) \<Rightarrow> 'f list \<Rightarrow> ('f \<times> 'f) list" where
  "greedy_trace dup frames =
     (case frames of [] \<Rightarrow> [] | first # rest \<Rightarrow> greedy_comparisons dup [first] rest)"

subsection \<open>The library behind the cosine method\<close>

text \<open>
  Modelled from the spec: the TF-IDF vectors and their cosine, which the repository
  takes from scikit-learn (\<^verbatim>\<open>TfidfVectorizer\<close>, \<^verbatim>\<open>cosine_similarity\<close>) and
  whose code is not part of it. In the specification's words: each string is
  vectorized by term frequency, optionally weighted by inverse document frequency over
  the batch of the two strings being compared, and the score is the cosine of the two
  vectors, 0 if either vector is the zero vector. The tokenizer \<open>tokens\<close> and the
  weighting \<open>idf\<close> of a document frequency are left open; \<open>idf\<close> constantly 1 is
  plain term frequency.
\<close>

definition document_frequency :: "string list \<Rightarrow> string list \<Rightarrow> string \<Rightarrow> nat" where
  \<comment> \<open>Modelled from the spec: in how many strings of the batch of two the term occurs\<close>
  "document_frequency words1 words2 t =
     (if t \<in> set words1 then 1 else 0) + (if t \<in> set words2 then 1 else 0)"

definition tfidf_weight ::
  "(nat \<Rightarrow> real) \<Rightarrow> string list \<Rightarrow> string list \<Rightarrow> string list \<Rightarrow> string \<Rightarrow> real" where
  \<comment> \<open>Modelled from the spec: the term frequency, weighted by the document frequency\<close>
  "tfidf_weight idf words1 words2 words t =
     real (count_list words t) * idf (document_frequency words1 words2 t)"

definition tfidf_cosine ::
  "(string \<Rightarrow> string list) \<Rightarrow> (nat \<Rightarrow> real) \<Rightarrow> string \<Rightarrow> string \<Rightarrow> real option" where
  \<comment> \<open>Modelled from the spec: the cosine of the two vectors, 0 if either is the zero vector;
      stands for scikit-learn's \<^verbatim>\<open>TfidfVectorizer\<close> and \<^verbatim>\<open>cosine_similarity\<close>\<close>
  "tfidf_cosine tokens idf text1 text2 =
     (let words1 = tokens text1;
          words2 = tokens text2;
          terms = set words1 \<union> set words2;
          v1 = tfidf_weight idf words1 words2 words1;
          v2 = tfidf_weight idf words1 words2 words2;
          dot = (\<Sum>t\<in>terms. v1 t * v2 t);
          norm1 = sqrt (\<Sum>t\<in>terms. v1 t * v1 t);
          norm2 = sqrt (\<Sum>t\<in>terms. v2 t * v2 t)
      in Some (if norm1 = 0 \<or> norm2 = 0 then 0 else dot / (norm1 * norm2)))"

subsection \<open>Auxiliary predicates and example inputs\<close>

definition readable_block :: "block \<Rightarrow> bool" where
  \<comment> \<open>the block has a text field and its value is hashable: the loop body does not raise\<close>
  "readable_block b = (case b ''text'' of None \<Rightarrow> False | Some t \<Rightarrow> hashable t)"

definition tfidf_raises :: "string \<Rightarrow> string \<Rightarrow> real option" where
  \<comment> \<open>a library call that raises on every pair of texts\<close>
  "tfidf_raises text1 text2 = None"

definition tfidf_constant :: "real \<Rightarrow> string \<Rightarrow> string \<Rightarrow> real option" where
  \<comment> \<open>a library call that answers the same score for every pair of texts\<close>
  "tfidf_constant score text1 text2 = Some score"

definition block_empty :: block where
  "block_empty = [''text'' \<mapsto> PStr [], ''confidence'' \<mapsto> PNum (9 / 10)]"

definition block_foo :: block where
  "block_foo = [''text'' \<mapsto> PStr ''def foo():'', ''confidence'' \<mapsto> PNum (9 / 10)]"

definition block_empty_again :: block where
  "block_empty_again = [''text'' \<mapsto> PStr [], ''confidence'' \<mapsto> PNum (7 / 10)]"

definition frame0 :: frame where
  "frame0 = \<lparr>frame_id = 0, image_path = ''frame_000000.jpg'', timestamp = 0,
             text_content = [], confidence = 1, frame_size = (1024, 576)\<rparr>"

definition frame1 :: frame where
  "frame1 = \<lparr>frame_id = 1, image_path = ''frame_000001.jpg'', timestamp = 1,
             text_content = [], confidence = 1, frame_size = (1024, 576)\<rparr>"

definition same_pictures :: "unit vision" where
  \<comment> \<open>every file holds the same picture: the structural similarity of any two is 1\<close>
  "same_pictures =
     \<lparr>imread = (\<lambda>path. Some ()), shape = (\<lambda>img. (576, 1024)),
      resize = (\<lambda>img new_size. Some img), ssim = (\<lambda>img1 img2. Some 1)\<rparr>"

definition no_idf :: "nat \<Rightarrow> real" where
  \<comment> \<open>no weighting by document frequency\<close>
  "no_idf df = 1"

definition pictures_by_path :: "string vision" where
  \<comment> \<open>a picture is told by its path: two files hold the same picture when the paths agree\<close>
  "pictures_by_path =
     \<lparr>imread = (\<lambda>path. Some path), shape = (\<lambda>img. (576, 1024)),
      resize = (\<lambda>img new_size. Some img),
      ssim = (\<lambda>img1 img2. if img1 = img2 then Some 1 else Some 0)\<rparr>"

section \<open>The Levenshtein matrix computes the edit distance\<close>

lemma lev_rec_zero_right: "lev_rec a b i 0 = i"
  by (cases i) simp_all

lemma lev_rec_down_le: "lev_rec a b (Suc i) j \<le> lev_rec a b i j + 1"
  by (cases j) (simp_all add: lev_rec_zero_right)

lemma lev_rec_right_le: "lev_rec a b i (Suc j) \<le> lev_rec a b i j + 1"
  by (cases i) simp_all

lemma lev_rec_le_down: "lev_rec a b i j \<le> lev_rec a b (Suc i) j + 1"
proof (induction j)
  case 0
  show ?case by (simp add: lev_rec_zero_right)
next
  case (Suc j)
  have r: "lev_rec a b i (Suc j) \<le> lev_rec a b i j + 1" by (rule lev_rec_right_le)
  show ?case using Suc r by (simp add: min_def)
qed

lemma lev_rec_le_right: "lev_rec a b i j \<le> lev_rec a b i (Suc j) + 1"
proof (induction i)
  case 0
  show ?case by simp
next
  case (Suc i)
  have r: "lev_rec a b (Suc i) j \<le> lev_rec a b i j + 1" by (rule lev_rec_down_le)
  show ?case using Suc r by (simp add: min_def)
qed

lemma lev_rec_step:
  "lev_rec a b (Suc i) (Suc j) =
     (if a ! i = b ! j then lev_rec a b i j
      else 1 + min (lev_rec a b i (Suc j)) (min (lev_rec a b (Suc i) j) (lev_rec a b i j)))"
  using lev_rec_le_down [of a b i j] lev_rec_le_right [of a b i j]
  by (simp add: min_def)

lemma lev_rec_step':
  assumes "0 < i" "0 < j"
  shows "lev_rec a b i j =
     (if a ! (i - 1) = b ! (j - 1) then lev_rec a b (i - 1) (j - 1)
      else 1 + min (lev_rec a b (i - 1) j) (min (lev_rec a b i (j - 1)) (lev_rec a b (i - 1) (j - 1))))"
proof -
  from assms obtain i0 j0 where "i = Suc i0" "j = Suc j0"
    by (cases i; cases j) auto
  then show ?thesis by (simp only: lev_rec_step diff_Suc_1)
qed

lemma lev_rec_sym: "lev_rec a b i j = lev_rec b a j i"
proof (induction a b i j rule: lev_rec.induct)
  case (1 a b j)
  show ?case by (simp add: lev_rec_zero_right)
next
  case (2 a b i)
  show ?case by simp
next
  case (3 a b i j)
  then show ?case by (simp add: min.commute eq_commute)
qed

lemma lev_rec_diag: "lev_rec a a i i = 0"
  by (induction i) simp_all

lemma lev_rec_le_max: "lev_rec a b i j \<le> max i j"
  by (induction a b i j rule: lev_rec.induct) (auto simp: min_def max_def)


lemma nth2_update:
  "i < length dp \<Longrightarrow> j < length (dp ! i) \<Longrightarrow>
   dp[i := (dp ! i)[j := v]] ! i' ! j' = (if i' = i \<and> j' = j then v else dp ! i' ! j')"
  by (cases "i' = i") (simp_all add: nth_list_update)

lemma dp_wf_update:
  assumes "dp_wf m n dp"
  shows "dp_wf m n (dp[i := (dp ! i)[j := v]])"
proof (cases "i < length dp")
  case True
  with assms show ?thesis
    by (auto simp: dp_wf_def list_all_length nth_list_update)
next
  case False
  with assms show ?thesis by (simp add: list_update_beyond)
qed

lemma dp_wf_row: "dp_wf m n dp \<Longrightarrow> i \<le> m \<Longrightarrow> length (dp ! i) = Suc n"
  by (simp add: dp_wf_def list_all_length)

lemma dp_wf_length: "dp_wf m n dp \<Longrightarrow> length dp = Suc m"
  by (simp add: dp_wf_def)

lemma dp_wf_create: "dp_wf m n (dp_create m n)"
  by (simp add: dp_wf_def dp_create_def list_all_length nth_Cons split: nat.split)

lemma init_column_inv:
  assumes "dp_wf m n dp" "k \<le> Suc m"
  shows "dp_wf m n (fold (\<lambda>i dp. dp[i := (dp ! i)[0 := int i]]) [0..<k] dp) \<and>
         (\<forall>i<k. fold (\<lambda>i dp. dp[i := (dp ! i)[0 := int i]]) [0..<k] dp ! i ! 0 = int i)"
  using assms(2)
proof (induction k)
  case 0
  show ?case using assms(1) by simp
next
  case (Suc k)
  let ?s = "fold (\<lambda>i dp. dp[i := (dp ! i)[0 := int i]]) [0..<k] dp"
  from Suc have wf: "dp_wf m n ?s" and old: "\<forall>i<k. ?s ! i ! 0 = int i" by simp_all
  have k: "k < length ?s" "0 < length (?s ! k)"
    using wf Suc.prems by (simp_all add: dp_wf_length dp_wf_row)
  show ?case
    using wf old k by (simp add: dp_wf_update nth2_update less_Suc_eq)
qed

lemma init_row_inv:
  assumes "dp_wf m n dp" "k \<le> Suc n"
  shows "dp_wf m n (fold (\<lambda>j dp. dp[0 := (dp ! 0)[j := int j]]) [0..<k] dp) \<and>
         (\<forall>j<k. fold (\<lambda>j dp. dp[0 := (dp ! 0)[j := int j]]) [0..<k] dp ! 0 ! j = int j) \<and>
         (\<forall>i j. 0 < i \<longrightarrow> fold (\<lambda>j dp. dp[0 := (dp ! 0)[j := int j]]) [0..<k] dp ! i ! j = dp ! i ! j)"
  using assms(2)
proof (induction k)
  case 0
  show ?case using assms(1) by simp
next
  case (Suc k)
  let ?s = "fold (\<lambda>j dp. dp[0 := (dp ! 0)[j := int j]]) [0..<k] dp"
  from Suc have wf: "dp_wf m n ?s" and old: "\<forall>j<k. ?s ! 0 ! j = int j"
    and rest: "\<forall>i j. 0 < i \<longrightarrow> ?s ! i ! j = dp ! i ! j" by simp_all
  have k: "0 < length ?s" "k < length (?s ! 0)"
    using wf Suc.prems by (simp_all add: dp_wf_length dp_wf_row)
  show ?case
    using wf old rest k by (simp add: dp_wf_update nth2_update less_Suc_eq)
qed

lemma dp_init:
  fixes m n :: nat
  defines "dp \<equiv> dp_init_row n (dp_init_column m (dp_create m n))"
  shows "dp_wf m n dp" and "j \<le> n \<Longrightarrow> dp ! 0 ! j = int j" and "i \<le> m \<Longrightarrow> dp ! i ! 0 = int i"
proof -
  let ?c = "dp_init_column m (dp_create m n)"
  have c: "dp_wf m n ?c" "\<forall>i<Suc m. ?c ! i ! 0 = int i"
    using init_column_inv [OF dp_wf_create, of "Suc m" m n] by (simp_all add: dp_init_column_def)
  have r: "dp_wf m n dp" "\<forall>j<Suc n. dp ! 0 ! j = int j" "\<forall>i j. 0 < i \<longrightarrow> dp ! i ! j = ?c ! i ! j"
    using init_row_inv [OF c(1), of "Suc n"] by (simp_all add: dp_def dp_init_row_def)
  show "dp_wf m n dp" by (rule r(1))
  show "j \<le> n \<Longrightarrow> dp ! 0 ! j = int j" using r(2) by simp
  show "i \<le> m \<Longrightarrow> dp ! i ! 0 = int i"
    using r(2,3) c(2) by (cases "i = 0") simp_all
qed


lemma dp_cell_correct:
  assumes "0 < i" "0 < j"
    and up: "dp ! (i - 1) ! j = int (lev_rec a b (i - 1) j)"
    and left: "dp ! i ! (j - 1) = int (lev_rec a b i (j - 1))"
    and diag: "dp ! (i - 1) ! (j - 1) = int (lev_rec a b (i - 1) (j - 1))"
  shows "dp_cell a b dp i j = int (lev_rec a b i j)"
proof -
  have "dp_cell a b dp i j =
          int (if a ! (i - 1) = b ! (j - 1) then lev_rec a b (i - 1) (j - 1)
               else 1 + min (lev_rec a b (i - 1) j)
                            (min (lev_rec a b i (j - 1)) (lev_rec a b (i - 1) (j - 1))))"
    unfolding dp_cell_def up diag left by (simp add: min_def)
  also have "\<dots> = int (lev_rec a b i j)"
    using lev_rec_step' [OF assms(1,2), of a b] by simp
  finally show ?thesis .
qed

lemma fill_row_inv:
  assumes wf: "dp_wf m n dp" and i: "0 < i" "i \<le> m"
    and prev: "\<forall>j\<le>n. dp ! (i - 1) ! j = int (lev_rec a b (i - 1) j)"
    and first: "dp ! i ! 0 = int i"
    and k: "k \<le> Suc n"
  shows "dp_wf m n (fold (\<lambda>j dp. dp[i := (dp ! i)[j := dp_cell a b dp i j]]) [1..<k] dp) \<and>
         (\<forall>i' j. i' \<noteq> i \<longrightarrow>
            fold (\<lambda>j dp. dp[i := (dp ! i)[j := dp_cell a b dp i j]]) [1..<k] dp ! i' ! j = dp ! i' ! j) \<and>
         (\<forall>j<max 1 k.
            fold (\<lambda>j dp. dp[i := (dp ! i)[j := dp_cell a b dp i j]]) [1..<k] dp ! i ! j =
            int (lev_rec a b i j))"
  using k
proof (induction k)
  case 0
  show ?case using wf first by (simp add: lev_rec_zero_right)
next
  case (Suc k)
  let ?F = "\<lambda>j dp. dp[i := (dp ! i)[j := dp_cell a b dp i j]]"
  let ?s = "fold ?F [1..<k] dp"
  from Suc have swf: "dp_wf m n ?s"
    and rest: "\<forall>i' j. i' \<noteq> i \<longrightarrow> ?s ! i' ! j = dp ! i' ! j"
    and filled: "\<forall>j<max 1 k. ?s ! i ! j = int (lev_rec a b i j)" by simp_all
  show ?case
  proof (cases "k = 0")
    case True
    then show ?thesis using swf rest filled by simp
  next
    case False
    then have k0: "0 < k" by simp
    have kn: "k \<le> n" using Suc.prems by simp
    have i1: "i - 1 \<noteq> i" using i by simp
    have up: "?s ! (i - 1) ! k = int (lev_rec a b (i - 1) k)"
      using rest prev kn i1 by simp
    have diag: "?s ! (i - 1) ! (k - 1) = int (lev_rec a b (i - 1) (k - 1))"
      using rest prev kn i1 by simp
    have left: "?s ! i ! (k - 1) = int (lev_rec a b i (k - 1))"
      using filled k0 by (simp add: max_def)
    have cell: "dp_cell a b ?s i k = int (lev_rec a b i k)"
      using i(1) k0 up left diag by (rule dp_cell_correct)
    have step: "fold ?F [1..<Suc k] dp = ?s[i := (?s ! i)[k := dp_cell a b ?s i k]]"
      using False by simp
    have bounds: "i < length ?s" "k < length (?s ! i)"
      using swf i kn by (simp_all add: dp_wf_length dp_wf_row)
    have c1: "dp_wf m n (fold ?F [1..<Suc k] dp)"
      unfolding step using swf by (rule dp_wf_update)
    have c2: "\<forall>i' j. i' \<noteq> i \<longrightarrow> fold ?F [1..<Suc k] dp ! i' ! j = dp ! i' ! j"
      unfolding step using rest bounds by (simp add: nth2_update)
    have c3: "\<forall>j<max 1 (Suc k). fold ?F [1..<Suc k] dp ! i ! j = int (lev_rec a b i j)"
    proof (intro allI impI)
      fix j assume "j < max 1 (Suc k)"
      then have "j < k \<or> j = k" by auto
      then show "fold ?F [1..<Suc k] dp ! i ! j = int (lev_rec a b i j)"
        unfolding step using filled cell bounds k0 by (auto simp: nth2_update max_def)
    qed
    show ?thesis using c1 c2 c3 by blast
  qed
qed

lemma fill_row_correct:
  assumes wf: "dp_wf m n dp" and i: "0 < i" "i \<le> m"
    and prev: "\<forall>j\<le>n. dp ! (i - 1) ! j = int (lev_rec a b (i - 1) j)"
    and first: "dp ! i ! 0 = int i"
  shows "dp_wf m n (dp_fill_row a b n i dp)"
    and "i' \<noteq> i \<Longrightarrow> dp_fill_row a b n i dp ! i' ! j = dp ! i' ! j"
    and "j \<le> n \<Longrightarrow> dp_fill_row a b n i dp ! i ! j = int (lev_rec a b i j)"
proof -
  have eq: "dp_fill_row a b n i dp =
              fold (\<lambda>j dp. dp[i := (dp ! i)[j := dp_cell a b dp i j]]) [1..<Suc n] dp"
    unfolding dp_fill_row_def by (simp only: Suc_eq_plus1)
  note inv = fill_row_inv [OF wf i prev first le_refl, folded eq]
  show "dp_wf m n (dp_fill_row a b n i dp)" using inv by blast
  show "i' \<noteq> i \<Longrightarrow> dp_fill_row a b n i dp ! i' ! j = dp ! i' ! j" using inv by blast
  have "j < max 1 (Suc n) \<Longrightarrow> dp_fill_row a b n i dp ! i ! j = int (lev_rec a b i j)"
    using inv by blast
  then show "j \<le> n \<Longrightarrow> dp_fill_row a b n i dp ! i ! j = int (lev_rec a b i j)"
    by simp
qed

lemma fill_inv:
  assumes wf: "dp_wf m n dp"
    and row0: "\<forall>j\<le>n. dp ! 0 ! j = int j"
    and col0: "\<forall>i\<le>m. dp ! i ! 0 = int i"
    and k: "k \<le> Suc m"
  shows "dp_wf m n (fold (dp_fill_row a b n) [1..<k] dp) \<and>
         (\<forall>i j. max 1 k \<le> i \<longrightarrow> fold (dp_fill_row a b n) [1..<k] dp ! i ! j = dp ! i ! j) \<and>
         (\<forall>i<max 1 k. \<forall>j\<le>n. fold (dp_fill_row a b n) [1..<k] dp ! i ! j = int (lev_rec a b i j))"
  using k
proof (induction k)
  case 0
  show ?case using wf row0 by simp
next
  case (Suc k)
  let ?s = "fold (dp_fill_row a b n) [1..<k] dp"
  from Suc have swf: "dp_wf m n ?s"
    and rest: "\<forall>i j. max 1 k \<le> i \<longrightarrow> ?s ! i ! j = dp ! i ! j"
    and filled: "\<forall>i<max 1 k. \<forall>j\<le>n. ?s ! i ! j = int (lev_rec a b i j)" by simp_all
  show ?case
  proof (cases "k = 0")
    case True
    then show ?thesis using swf rest filled by simp
  next
    case False
    have km: "0 < k" "k \<le> m" using False Suc.prems by simp_all
    have prev: "\<forall>j\<le>n. ?s ! (k - 1) ! j = int (lev_rec a b (k - 1) j)"
      using filled km by (simp add: max_def)
    have first: "?s ! k ! 0 = int k"
      using rest col0 km by (simp add: max_def)
    let ?t = "dp_fill_row a b n k ?s"
    note row = fill_row_correct [OF swf km prev first]
    have step: "fold (dp_fill_row a b n) [1..<Suc k] dp = ?t"
      using False by simp
    have c1: "dp_wf m n (fold (dp_fill_row a b n) [1..<Suc k] dp)"
      unfolding step by (rule row(1))
    have c2: "\<forall>i j. max 1 (Suc k) \<le> i \<longrightarrow>
                fold (dp_fill_row a b n) [1..<Suc k] dp ! i ! j = dp ! i ! j"
      unfolding step using row(2) rest by (simp add: max_def)
    have c3: "\<forall>i<max 1 (Suc k). \<forall>j\<le>n.
                fold (dp_fill_row a b n) [1..<Suc k] dp ! i ! j = int (lev_rec a b i j)"
    proof (intro allI impI)
      fix i j assume ij: "i < max 1 (Suc k)" "j \<le> n"
      show "fold (dp_fill_row a b n) [1..<Suc k] dp ! i ! j = int (lev_rec a b i j)"
      proof (cases "i = k")
        case True
        then show ?thesis unfolding step using row(3) ij by simp
      next
        case False
        then have "i < max 1 k" using ij km by (simp add: max_def)
        then show ?thesis unfolding step using row(2) filled ij False by simp
      qed
    qed
    show ?thesis using c1 c2 c3 by blast
  qed
qed

lemma levenshtein_matrix_correct:
  "levenshtein_matrix a b ! length a ! length b = int (edit_distance a b)"
proof -
  let ?m = "length a" and ?n = "length b"
  let ?dp = "dp_init_row ?n (dp_init_column ?m (dp_create ?m ?n))"
  have wf: "dp_wf ?m ?n ?dp" by (rule dp_init(1))
  have row0: "\<forall>j\<le>?n. ?dp ! 0 ! j = int j" by (simp add: dp_init(2))
  have col0: "\<forall>i\<le>?m. ?dp ! i ! 0 = int i" by (simp add: dp_init(3))
  from fill_inv [OF wf row0 col0, of "Suc ?m" a b]
  have "\<forall>i<Suc ?m. \<forall>j\<le>?n. dp_fill a b ?m ?n ?dp ! i ! j = int (lev_rec a b i j)"
    by (simp add: dp_fill_def)
  then show ?thesis
    by (simp add: levenshtein_matrix_def edit_distance_def Let_def)
qed

lemma levenshtein_similarity_eq:
  "levenshtein_similarity a b =
     (if max (length a) (length b) = 0 then 1
      else 1 - real (edit_distance a b) / real (max (length a) (length b)))"
  by (simp add: levenshtein_similarity_def levenshtein_matrix_correct Let_def)

text \<open>
  The distance of the recurrence, read on lists: it is the length of the other string
  when one string is empty, and on two strings that end in \<open>x\<close> and \<open>y\<close> it is the
  least of a deletion, an insertion and a substitution.
\<close>

lemma lev_rec_cong:
  "\<forall>k<i. a ! k = a' ! k \<Longrightarrow> \<forall>k<j. b ! k = b' ! k \<Longrightarrow> lev_rec a b i j = lev_rec a' b' i j"
  by (induction a b i j rule: lev_rec.induct) simp_all

lemma edit_distance_Nil_left: "edit_distance [] b = length b"
  by (simp add: edit_distance_def)

lemma edit_distance_Nil_right: "edit_distance a [] = length a"
  by (simp add: edit_distance_def lev_rec_zero_right)

lemma edit_distance_snoc:
  "edit_distance (a @ [x]) (b @ [y]) =
     min (min (edit_distance a (b @ [y]) + 1) (edit_distance (a @ [x]) b + 1))
         (edit_distance a b + (if x = y then 0 else 1))"
proof -
  let ?A = "a @ [x]" and ?B = "b @ [y]"
  have 1: "lev_rec ?A ?B (length a) (Suc (length b)) = lev_rec a ?B (length a) (Suc (length b))"
    by (rule lev_rec_cong) (simp_all add: nth_append)
  have 2: "lev_rec ?A ?B (Suc (length a)) (length b) = lev_rec ?A b (Suc (length a)) (length b)"
    by (rule lev_rec_cong) (simp_all add: nth_append)
  have 3: "lev_rec ?A ?B (length a) (length b) = lev_rec a b (length a) (length b)"
    by (rule lev_rec_cong) (simp_all add: nth_append)
  show ?thesis
    unfolding edit_distance_def using 1 2 3 by simp
qed

section \<open>Properties of the scorers\<close>

lemma jaccard_eq_spec: "jaccard_similarity text1 text2 = token_overlap_spec text1 text2"
  by (simp add: jaccard_similarity_def token_overlap_spec_def Let_def)

lemma word_overlap_eq_spec: "word_overlap_similarity text1 text2 = token_overlap_spec text1 text2"
proof (cases "split text1 = [] \<or> split text2 = []")
  case True
  then show ?thesis
    by (auto simp: word_overlap_similarity_def token_overlap_spec_def Let_def)
next
  case False
  then show ?thesis
    by (simp add: word_overlap_similarity_def token_overlap_spec_def Let_def card_gt_0_iff)
qed

lemma token_overlap_spec_sym: "token_overlap_spec a b = token_overlap_spec b a"
  by (simp add: token_overlap_spec_def Let_def Int_commute Un_commute)

lemma token_overlap_spec_self:
  "token_overlap_spec a a = (if split a = [] then 0 else 1)"
  by (simp add: token_overlap_spec_def Let_def card_gt_0_iff)

lemma edit_distance_sym: "edit_distance a b = edit_distance b a"
  by (simp add: edit_distance_def lev_rec_sym [of a b])

lemma levenshtein_similarity_sym: "levenshtein_similarity a b = levenshtein_similarity b a"
  by (simp add: levenshtein_similarity_eq edit_distance_sym [of a b] max.commute)

lemma levenshtein_similarity_self: "levenshtein_similarity a a = 1"
  by (simp add: levenshtein_similarity_eq edit_distance_def lev_rec_diag)

lemma cosine_similarity_sym:
  "\<forall>a b. tfidf a b = tfidf b a \<Longrightarrow> cosine_similarity tfidf a b = cosine_similarity tfidf b a"
  by (simp add: cosine_similarity_def)

lemma document_frequency_sym: "document_frequency w1 w2 t = document_frequency w2 w1 t"
  by (simp add: document_frequency_def)

lemma tfidf_weight_sym: "tfidf_weight idf w1 w2 w = tfidf_weight idf w2 w1 w"
  by (rule ext) (simp add: tfidf_weight_def document_frequency_sym [of w1 w2])

lemma tfidf_cosine_sym: "tfidf_cosine tokens idf a b = tfidf_cosine tokens idf b a"
  by (simp add: tfidf_cosine_def Let_def tfidf_weight_sym [of idf "tokens a" "tokens b"]
      Un_commute [of "set (tokens a)"] mult.commute disj_commute)

lemma repository_scorers_sym:
  assumes "method \<in> {''jaccard'', ''levenshtein'', ''word_overlap''}"
  shows "calculate_text_similarity tfidf a b method = calculate_text_similarity tfidf b a method"
  using assms
  by (auto simp: calculate_text_similarity_def Let_def
      jaccard_eq_spec word_overlap_eq_spec token_overlap_spec_sym [of "clean_text a"]
      levenshtein_similarity_sym [of "clean_text a"])

lemma tfidf_cosine_foo_bar_baz: "tfidf_cosine split no_idf ''foo bar'' ''foo baz'' = Some (1 / 2)"
proof -
  have s: "split ''foo bar'' = [''foo'', ''bar'']" "split ''foo baz'' = [''foo'', ''baz'']"
    by code_simp+
  have t: "set [''foo'', ''bar''] \<union> set [''foo'', ''baz''] = {''foo'', ''bar'', ''baz''}"
    by auto
  show ?thesis
    unfolding tfidf_cosine_def Let_def s t
    by (simp add: tfidf_weight_def no_idf_def)
qed

lemma clean_text_foo_bar: "clean_text ''foo bar'' = ''foo bar''" "clean_text ''foo baz'' = ''foo baz''"
  by code_simp+

section \<open>Properties of the two deduplication loops\<close>

lemma compare_with_unique_fst:
  "fst (compare_with_unique cv threshold frame us) =
     (\<exists>u \<in> set us. threshold < calculate_frame_similarity cv frame u)"
  by (induction us) (auto simp: Let_def split: prod.splits)

lemma retained_frame_compared_with_all:
  "compare_with_unique cv threshold frame us = (False, compared) \<Longrightarrow>
   compared = map (Pair frame) us"
  by (induction us arbitrary: compared) (auto simp: Let_def split: if_splits prod.splits)

lemma dedup_frames_loop_greedy:
  "fst (dedup_frames_loop cv threshold us fs) =
     greedy_retain (\<lambda>c r. threshold < calculate_frame_similarity cv c r) us fs"
proof (induction fs arbitrary: us)
  case Nil
  show ?case by simp
next
  case (Cons f fs)
  obtain d c where cu: "compare_with_unique cv threshold f us = (d, c)"
    by (cases "compare_with_unique cv threshold f us")
  let ?dup = "\<lambda>c r. threshold < calculate_frame_similarity cv c r"
  have d: "d = (\<exists>u \<in> set us. ?dup f u)"
    using compare_with_unique_fst [of cv threshold f us] cu by simp
  show ?case
  proof (cases d)
    case True
    obtain r c' where dl: "dedup_frames_loop cv threshold us fs = (r, c')"
      by (cases "dedup_frames_loop cv threshold us fs")
    have "r = greedy_retain ?dup us fs"
      using Cons.IH [of us] dl by simp
    with True cu dl d show ?thesis by simp
  next
    case False
    obtain r c' where dl: "dedup_frames_loop cv threshold (us @ [f]) fs = (r, c')"
      by (cases "dedup_frames_loop cv threshold (us @ [f]) fs")
    have "r = greedy_retain ?dup (us @ [f]) fs"
      using Cons.IH [of "us @ [f]"] dl by simp
    with False cu dl d show ?thesis by simp
  qed
qed

lemma compare_with_unique_snd:
  "snd (compare_with_unique cv threshold frame us) =
     map (Pair frame) (scanned (\<lambda>c r. threshold < calculate_frame_similarity cv c r) frame us)"
  by (induction us) (auto simp: scanned_def Let_def split: prod.splits)

lemma dedup_frames_loop_comparisons:
  "snd (dedup_frames_loop cv threshold us fs) =
     greedy_comparisons (\<lambda>c r. threshold < calculate_frame_similarity cv c r) us fs"
proof (induction fs arbitrary: us)
  case Nil
  show ?case by simp
next
  case (Cons f fs)
  let ?dup = "\<lambda>c r. threshold < calculate_frame_similarity cv c r"
  obtain d c where cu: "compare_with_unique cv threshold f us = (d, c)"
    by (cases "compare_with_unique cv threshold f us")
  have d: "d = (\<exists>u \<in> set us. ?dup f u)"
    using compare_with_unique_fst [of cv threshold f us] cu by simp
  have c: "c = map (Pair f) (scanned ?dup f us)"
    using compare_with_unique_snd [of cv threshold f us] cu by simp
  show ?case
  proof (cases d)
    case True
    obtain r c' where dl: "dedup_frames_loop cv threshold us fs = (r, c')"
      by (cases "dedup_frames_loop cv threshold us fs")
    have "c' = greedy_comparisons ?dup us fs"
      using Cons.IH [of us] dl by simp
    with True cu dl d c show ?thesis by simp
  next
    case False
    obtain r c' where dl: "dedup_frames_loop cv threshold (us @ [f]) fs = (r, c')"
      by (cases "dedup_frames_loop cv threshold (us @ [f]) fs")
    have "c' = greedy_comparisons ?dup (us @ [f]) fs"
      using Cons.IH [of "us @ [f]"] dl by simp
    with False cu dl d c show ?thesis by simp
  qed
qed

lemma deduplicate_frames_trace_snd:
  "snd (deduplicate_frames_trace cv frames threshold) =
     greedy_trace (\<lambda>c r. threshold < calculate_frame_similarity cv c r) frames"
  by (simp add: deduplicate_frames_trace_def greedy_trace_def dedup_frames_loop_comparisons
      split: list.splits)

lemma sim_by_path:
  "calculate_frame_similarity pictures_by_path f g = (if image_path f = image_path g then 1 else 0)"
  by (simp add: calculate_frame_similarity_def pictures_by_path_def)

lemma greedy_retain_subseq:
  "\<exists>ys. greedy_retain dup us fs = us @ ys \<and> subseq ys fs"
proof (induction fs arbitrary: us)
  case Nil
  show ?case by simp
next
  case (Cons f fs)
  show ?case
  proof (cases "\<exists>r \<in> set us. dup f r")
    case True
    from Cons.IH [of us] obtain ys where "greedy_retain dup us fs = us @ ys" "subseq ys fs"
      by blast
    with True show ?thesis by auto
  next
    case False
    from Cons.IH [of "us @ [f]"] obtain ys
      where "greedy_retain dup (us @ [f]) fs = (us @ [f]) @ ys" "subseq ys fs"
      by blast
    with False have "greedy_retain dup us (f # fs) = us @ (f # ys) \<and> subseq (f # ys) (f # fs)"
      by simp
    then show ?thesis by blast
  qed
qed

lemma greedy_dedupe_subseq: "subseq (greedy_dedupe dup frames) frames"
proof (cases frames)
  case Nil
  then show ?thesis by (simp add: greedy_dedupe_def)
next
  case (Cons f fs)
  from greedy_retain_subseq [of dup "[f]" fs] obtain ys
    where "greedy_retain dup [f] fs = [f] @ ys" "subseq ys fs" by blast
  with Cons show ?thesis by (simp add: greedy_dedupe_def)
qed

lemma deduplicate_frames_greedy:
  "deduplicate_frames cv frames threshold =
     greedy_dedupe (\<lambda>c r. threshold < calculate_frame_similarity cv c r) frames"
  by (simp add: deduplicate_frames_def deduplicate_frames_trace_def greedy_dedupe_def
      dedup_frames_loop_greedy split: list.splits)

lemma dedup_texts_loop_total:
  "list_all readable_block bs \<Longrightarrow> \<exists>out. dedup_texts_loop bs seen uniq = Inr out"
proof (induction bs arbitrary: seen uniq)
  case Nil
  show ?case by simp
next
  case (Cons b bs)
  from Cons.prems have rest: "list_all readable_block bs" and b: "readable_block b"
    by simp_all
  from b obtain t where t: "b ''text'' = Some t" "hashable t"
    by (auto simp: readable_block_def split: option.splits)
  show ?case using t Cons.IH [OF rest] by simp
qed

lemma dedup_texts_loop_filter:
  "dedup_texts_loop bs seen uniq = Inr out \<Longrightarrow>
   filter (\<lambda>b. b ''text'' = Some t) out =
     filter (\<lambda>b. b ''text'' = Some t) uniq @
     (if t \<in> seen then [] else take 1 (filter (\<lambda>b. b ''text'' = Some t) bs))"
proof (induction bs arbitrary: seen uniq)
  case Nil
  then show ?case by auto
next
  case (Cons b bs)
  from Cons.prems obtain v where v: "b ''text'' = Some v" "hashable v"
    by (auto split: option.splits if_splits)
  show ?case
  proof (cases "v \<in> seen")
    case True
    with Cons.prems v have "dedup_texts_loop bs seen uniq = Inr out" by simp
    from Cons.IH [OF this] True v show ?thesis by auto
  next
    case False
    with Cons.prems v have "dedup_texts_loop bs (insert v seen) (uniq @ [b]) = Inr out" by simp
    from Cons.IH [OF this] False v show ?thesis by auto
  qed
qed

lemma deduplicate_texts_config: "deduplicate_texts d1 bs = deduplicate_texts d2 bs"
  by (simp add: deduplicate_texts_def)

lemma calculate_text_similarity_levenshtein:
  "text1 \<noteq> [] \<Longrightarrow> text2 \<noteq> [] \<Longrightarrow>
   calculate_text_similarity tfidf text1 text2 ''levenshtein'' =
     levenshtein_similarity (clean_text text1) (clean_text text2)"
  by (simp add: calculate_text_similarity_def Let_def)

lemma clean_text_blank: "clean_text '' '' = []"
  by (simp add: clean_text_def split_def isspace_def lower_def)

lemma clean_text_hello: "split (clean_text ''Hello, World!'') = [''hello'', ''world!'']"
  by code_simp

lemma edit_distance_kitten_sitting: "edit_distance ''kitten'' ''sitting'' = 3"
  by code_simp

section \<open>The claims\<close>

subsection \<open>C1: a method name the engine does not know\<close>

text \<open>
  Claim C1 says that a method name outside the supported set signals an
  \<^verbatim>\<open>InvalidConfiguration\<close> error and never yields a score by falling back. The code
  has no such error: the last \<^verbatim>\<open>else\<close> branch of \<^verbatim>\<open>calculate_text_similarity\<close>
  calls \<^verbatim>\<open>_cosine_similarity\<close>. As amended: for every pair of input strings a method
  name outside \<open>cosine\<close>, \<open>jaccard\<close>, \<open>levenshtein\<close>, \<open>word_overlap\<close> returns a
  score, namely 0 when either string is empty and otherwise the cosine score of the
  cleaned strings, the same value as for the method \<open>cosine\<close>.
\<close>

theorem unknown_method_scores_as_cosine:
  "method \<notin> supported_methods \<Longrightarrow>
   calculate_text_similarity tfidf text1 text2 method =
     (if text1 = [] \<or> text2 = [] then 0
      else cosine_similarity tfidf (clean_text text1) (clean_text text2)) \<and>
   calculate_text_similarity tfidf text1 text2 method =
     calculate_text_similarity tfidf text1 text2 ''cosine''"
  by (simp add: calculate_text_similarity_def supported_methods_def Let_def)

theorem unknown_method_scores_as_cosine_witness:
  "''bogus'' \<notin> supported_methods \<and>
   calculate_text_similarity (tfidf_constant (1 / 4)) ''def foo():'' ''def bar():'' ''bogus'' =
     calculate_text_similarity (tfidf_constant (1 / 4)) ''def foo():'' ''def bar():'' ''cosine''"
  using unknown_method_scores_as_cosine
    [of "''bogus''" "tfidf_constant (1 / 4)" "''def foo():''" "''def bar():''"]
  by (simp add: supported_methods_def)

text \<open>
  The claim as stated fails: with the name \<open>bogus\<close> the engine returns the score the
  library computes for the cosine method.
\<close>

theorem unknown_method_returns_a_score:
  "''bogus'' \<notin> supported_methods \<and>
   calculate_text_similarity (tfidf_constant (1 / 4)) ''def foo():'' ''def bar():'' ''bogus'' = 1 / 4"
  by (simp add: supported_methods_def calculate_text_similarity_def cosine_similarity_def
      tfidf_constant_def)

subsection \<open>C2: a block with empty text\<close>

text \<open>
  Claim C2 says that a block whose text is the empty string is dropped by the text
  deduplication and never founds an entry of the output. The code compares texts for
  equality only and has no test for the empty string. As amended: the empty string is
  a text like any other; when no block raises, the blocks with empty text in the
  output are exactly the first block with empty text of the input, so the first one
  is kept (also when it is the first block) and every later one is dropped.
\<close>

theorem empty_text_block_kept_once:
  assumes "list_all readable_block text_blocks"
  shows "\<exists>out. deduplicate_texts self text_blocks = Inr out \<and>
               filter empty_text out = take 1 (filter empty_text text_blocks)"
proof (cases "text_blocks = []")
  case True
  then show ?thesis by (simp add: deduplicate_texts_def)
next
  case False
  from assms obtain out where out: "dedup_texts_loop text_blocks {} [] = Inr out"
    using dedup_texts_loop_total by blast
  have "filter empty_text out = take 1 (filter empty_text text_blocks)"
    using dedup_texts_loop_filter [OF out, of "PStr []"] by (simp add: empty_text_def [abs_def])
  with out False show ?thesis by (simp add: deduplicate_texts_def)
qed

theorem empty_text_block_kept_once_witness:
  "list_all readable_block [block_empty, block_foo, block_empty_again] \<and>
   deduplicate_texts \<lparr>config = Map.empty\<rparr> [block_empty, block_foo, block_empty_again] =
     Inr [block_empty, block_foo] \<and>
   (\<exists>out. deduplicate_texts \<lparr>config = Map.empty\<rparr> [block_empty, block_foo, block_empty_again] =
            Inr out \<and>
          filter empty_text out = [block_empty])"
  using empty_text_block_kept_once
    [of "[block_empty, block_foo, block_empty_again]" "\<lparr>config = Map.empty\<rparr>"]
  by (simp add: readable_block_def deduplicate_texts_def block_empty_def block_foo_def
      block_empty_again_def empty_text_def)

text \<open>
  The claim as stated fails: a block with empty text at the head of the input is the
  first entry of the output.
\<close>

theorem empty_text_block_is_kept:
  "empty_text block_empty \<and>
   deduplicate_texts \<lparr>config = Map.empty\<rparr> [block_empty, block_foo] =
     Inr [block_empty, block_foo]"
  by (simp add: deduplicate_texts_def block_empty_def block_foo_def empty_text_def)

subsection \<open>C3: two empty strings\<close>

text \<open>
  Claim C3 says that on two empty strings the engine returns 1 under the edit-distance
  method and 0 under the Jaccard method. The guard at the head of
  \<^verbatim>\<open>calculate_text_similarity\<close> returns 0 as soon as one input is empty, before the
  method is looked at. As amended: on two empty strings the engine returns 0 under
  every method; the scorer \<^verbatim>\<open>_levenshtein_similarity\<close> itself returns 1 on two empty
  strings, which the engine reaches for inputs that are not empty but clean to the
  empty string, and the scorer \<^verbatim>\<open>_jaccard_similarity\<close> returns 0 on them.
\<close>

theorem empty_inputs_score:
  "calculate_text_similarity tfidf '''' '''' method = 0 \<and>
   levenshtein_similarity '''' '''' = 1 \<and>
   jaccard_similarity '''' '''' = 0 \<and>
   calculate_text_similarity tfidf '' '' '' '' ''levenshtein'' = 1"
  by (simp add: calculate_text_similarity_def levenshtein_similarity_eq jaccard_eq_spec
      token_overlap_spec_def split_def clean_text_blank)

text \<open>The claim as stated fails under the edit-distance method.\<close>

theorem empty_inputs_levenshtein_is_zero:
  "calculate_text_similarity tfidf_raises '''' '''' ''levenshtein'' = 0 \<and>
   calculate_text_similarity tfidf_raises '''' '''' ''levenshtein'' \<noteq> 1"
  by (simp add: calculate_text_similarity_def)

subsection \<open>C4: frame deduplication is the greedy online algorithm\<close>

text \<open>
  Claim C4 says that frame deduplication retains the first frame and drops a later
  frame exactly when its similarity to some retained frame is greater than or equal to
  the threshold. The code tests \<^verbatim>\<open>similarity > threshold\<close>. As amended: for every
  sequence of frames and every threshold, \<^verbatim>\<open>deduplicate_frames\<close> is the greedy online
  algorithm that retains the first frame and drops a later frame if and only if its
  similarity to some currently retained frame (any of them, not only the last) is
  strictly greater than the threshold; a frame whose similarity only equals the
  threshold is retained. A candidate is compared with the retained frames in the order
  they were retained, and the scan stops at the first comparison that exceeds the
  threshold.
\<close>

theorem deduplicate_frames_is_strict_greedy:
  "deduplicate_frames cv frames threshold =
     greedy_dedupe
       (\<lambda>candidate retained. calculate_frame_similarity cv candidate retained > threshold)
       frames \<and>
   snd (deduplicate_frames_trace cv frames threshold) =
     greedy_trace
       (\<lambda>candidate retained. calculate_frame_similarity cv candidate retained > threshold)
       frames"
  by (simp add: deduplicate_frames_greedy deduplicate_frames_trace_snd)

theorem deduplicate_frames_is_strict_greedy_witness:
  "deduplicate_frames pictures_by_path [frame0, frame1, frame0, frame1] (19 / 20) =
     [frame0, frame1] \<and>
   snd (deduplicate_frames_trace pictures_by_path [frame0, frame1, frame0, frame1] (19 / 20)) =
     [(frame1, frame0), (frame0, frame0), (frame1, frame0), (frame1, frame1)]"
  using deduplicate_frames_is_strict_greedy
    [of pictures_by_path "[frame0, frame1, frame0, frame1]" "19 / 20"]
  by (simp add: greedy_dedupe_def greedy_trace_def scanned_def sim_by_path frame0_def frame1_def)

text \<open>
  The claim as stated fails: two frames of the same picture have similarity 1, and at
  the threshold 1 the code retains both, where the rule with \<open>\<ge>\<close> drops the second.
\<close>

theorem deduplicate_frames_retains_at_threshold:
  "deduplicate_frames same_pictures [frame0, frame1] 1 = [frame0, frame1] \<and>
   greedy_dedupe
     (\<lambda>candidate retained. calculate_frame_similarity same_pictures candidate retained \<ge> 1)
     [frame0, frame1] = [frame0] \<and>
   deduplicate_frames same_pictures [frame0, frame1] 1 \<noteq>
   greedy_dedupe
     (\<lambda>candidate retained. calculate_frame_similarity same_pictures candidate retained \<ge> 1)
     [frame0, frame1]"
  by (simp add: deduplicate_frames_def deduplicate_frames_trace_def greedy_dedupe_def
      calculate_frame_similarity_def same_pictures_def)

subsection \<open>C5: the edit-distance similarity\<close>

text \<open>
  Claim C5: for every pair of strings \<open>a\<close> and \<open>b\<close>, not both empty, the edit-distance
  similarity \<^verbatim>\<open>_levenshtein_similarity\<close> equals 1 minus the Levenshtein distance of
  \<open>a\<close> and \<open>b\<close> (the standard recurrence with unit costs, \<open>edit_distance\<close>) divided
  by the larger of the two lengths. The engine applies the scorer to the cleaned
  strings (\<open>calculate_text_similarity_levenshtein\<close>).
\<close>

theorem levenshtein_similarity_is_edit_distance:
  "a \<noteq> [] \<or> b \<noteq> [] \<Longrightarrow>
   levenshtein_similarity a b =
     1 - real (edit_distance a b) / real (max (length a) (length b))"
  by (auto simp add: levenshtein_similarity_eq)

theorem levenshtein_similarity_is_edit_distance_witness:
  "''kitten'' \<noteq> [] \<and>
   edit_distance ''kitten'' ''sitting'' = 3 \<and>
   levenshtein_similarity ''kitten'' ''sitting'' = 4 / 7"
  using levenshtein_similarity_is_edit_distance [of "''kitten''" "''sitting''"]
  by (simp add: edit_distance_kitten_sitting)

subsection \<open>C6: symmetry\<close>

text \<open>
  Claim C6: for every pair of strings and every method name, the score of \<open>(a, b)\<close>
  equals the score of \<open>(b, a)\<close>. The three scorers of the repository are symmetric
  whatever the library computes. The cosine score, also the score of every unknown
  method name, is computed by the library: with the library as \<open>tfidf_cosine\<close>, for
  every tokenizer and every weighting, it is symmetric as well.
\<close>

theorem calculate_text_similarity_symmetric:
  "calculate_text_similarity (tfidf_cosine tokens idf) a b method =
   calculate_text_similarity (tfidf_cosine tokens idf) b a method \<and>
   (method \<in> {''jaccard'', ''levenshtein'', ''word_overlap''} \<longrightarrow>
    calculate_text_similarity tfidf a b method = calculate_text_similarity tfidf b a method)"
proof (intro conjI impI)
  have "\<forall>x y. tfidf_cosine tokens idf x y = tfidf_cosine tokens idf y x"
    using tfidf_cosine_sym by blast
  then show "calculate_text_similarity (tfidf_cosine tokens idf) a b method =
             calculate_text_similarity (tfidf_cosine tokens idf) b a method"
    by (auto simp: calculate_text_similarity_def Let_def cosine_similarity_sym
        jaccard_eq_spec word_overlap_eq_spec token_overlap_spec_sym [of "clean_text a"]
        levenshtein_similarity_sym [of "clean_text a"])
next
  assume "method \<in> {''jaccard'', ''levenshtein'', ''word_overlap''}"
  then show "calculate_text_similarity tfidf a b method =
             calculate_text_similarity tfidf b a method"
    by (rule repository_scorers_sym)
qed

theorem calculate_text_similarity_symmetric_witness:
  "calculate_text_similarity (tfidf_cosine split no_idf) ''foo bar'' ''foo baz'' ''cosine'' =
   calculate_text_similarity (tfidf_cosine split no_idf) ''foo baz'' ''foo bar'' ''cosine'' \<and>
   calculate_text_similarity (tfidf_cosine split no_idf) ''foo bar'' ''foo baz'' ''cosine'' = 1 / 2 \<and>
   ''levenshtein'' \<in> {''jaccard'', ''levenshtein'', ''word_overlap''} \<and>
   calculate_text_similarity tfidf_raises ''foo bar'' ''foo baz'' ''levenshtein'' =
   calculate_text_similarity tfidf_raises ''foo baz'' ''foo bar'' ''levenshtein''"
  using
    calculate_text_similarity_symmetric
      [of split no_idf "''foo bar''" "''foo baz''" "''cosine''" tfidf_raises]
    calculate_text_similarity_symmetric
      [of split no_idf "''foo bar''" "''foo baz''" "''levenshtein''" tfidf_raises]
  by (simp add: calculate_text_similarity_def cosine_similarity_def clean_text_foo_bar
      tfidf_cosine_foo_bar_baz)

subsection \<open>C7: the score of a string with itself\<close>

text \<open>
  Claim C7 says that every non-empty string scores 1 with itself under every method.
  The token scorers return 0 when the cleaned string has no token (the guard
  \<^verbatim>\<open>union == 0\<close>), and the cosine scorer returns what the library computes, or 0
  when it raises. As amended: for every non-empty string \<open>a\<close>, the score of \<open>a\<close> with
  itself is 1 under \<open>levenshtein\<close>; under \<open>jaccard\<close> and \<open>word_overlap\<close> it is 1 when
  the cleaned \<open>a\<close> has at least one token and 0 otherwise; under \<open>cosine\<close> it is the
  library's score of the cleaned \<open>a\<close> with itself, and 0 when the library raises.
\<close>

theorem self_similarity:
  "a \<noteq> [] \<Longrightarrow>
   calculate_text_similarity tfidf a a ''levenshtein'' = 1 \<and>
   calculate_text_similarity tfidf a a ''jaccard'' = (if split (clean_text a) = [] then 0 else 1) \<and>
   calculate_text_similarity tfidf a a ''word_overlap'' =
     (if split (clean_text a) = [] then 0 else 1) \<and>
   calculate_text_similarity tfidf a a ''cosine'' =
     (case tfidf (clean_text a) (clean_text a) of Some score \<Rightarrow> score | None \<Rightarrow> 0)"
  by (simp add: calculate_text_similarity_def Let_def levenshtein_similarity_self
      jaccard_eq_spec word_overlap_eq_spec token_overlap_spec_self cosine_similarity_def)

theorem self_similarity_witness:
  "''Hello, World!'' \<noteq> [] \<and>
   split (clean_text ''Hello, World!'') = [''hello'', ''world!''] \<and>
   calculate_text_similarity tfidf_raises ''Hello, World!'' ''Hello, World!'' ''levenshtein'' = 1 \<and>
   calculate_text_similarity tfidf_raises ''Hello, World!'' ''Hello, World!'' ''jaccard'' = 1 \<and>
   calculate_text_similarity tfidf_raises ''Hello, World!'' ''Hello, World!'' ''word_overlap'' = 1 \<and>
   calculate_text_similarity tfidf_raises ''Hello, World!'' ''Hello, World!'' ''cosine'' = 0"
  using self_similarity [of "''Hello, World!''" tfidf_raises] clean_text_hello
  by (simp add: tfidf_raises_def)

text \<open>
  The claim as stated fails: the string of one space is not empty, cleans to the
  empty string, and scores 0 with itself under the Jaccard method.
\<close>

theorem self_similarity_of_blank_is_zero:
  "'' '' \<noteq> [] \<and> calculate_text_similarity tfidf_raises '' '' '' '' ''jaccard'' = 0"
  by (simp add: calculate_text_similarity_def clean_text_blank jaccard_eq_spec
      token_overlap_spec_def split_def)

subsection \<open>C9: the retained frames are a subsequence of the input\<close>

text \<open>
  Claim C9: for every input sequence of frames the output of frame deduplication is a
  subsequence of the input, in the input's order; the empty sequence gives the empty
  sequence, and a single frame is returned unchanged without any comparison.
\<close>

theorem deduplicate_frames_subsequence:
  "subseq (deduplicate_frames cv frames threshold) frames \<and>
   deduplicate_frames_trace cv [] threshold = ([], []) \<and>
   deduplicate_frames_trace cv [f] threshold = ([f], [])"
proof (intro conjI)
  show "subseq (deduplicate_frames cv frames threshold) frames"
    unfolding deduplicate_frames_greedy by (rule greedy_dedupe_subseq)
  show "deduplicate_frames_trace cv [] threshold = ([], [])"
    by (simp add: deduplicate_frames_trace_def)
  show "deduplicate_frames_trace cv [f] threshold = ([f], [])"
    by (simp add: deduplicate_frames_trace_def)
qed

subsection \<open>C10: the Jaccard and the word-overlap scorers agree\<close>

text \<open>
  Claim C10: for every pair of input strings the Jaccard method and the word-overlap
  method return the same score: both are the size of the intersection of the two sets
  of whitespace-separated tokens divided by the size of their union, and 0 when the
  union is empty.
\<close>

theorem jaccard_equals_word_overlap:
  "jaccard_similarity text1 text2 = word_overlap_similarity text1 text2 \<and>
   jaccard_similarity text1 text2 = token_overlap_spec text1 text2 \<and>
   word_overlap_similarity text1 text2 = token_overlap_spec text1 text2 \<and>
   calculate_text_similarity tfidf text1 text2 ''jaccard'' =
   calculate_text_similarity tfidf text1 text2 ''word_overlap''"
  by (simp add: jaccard_eq_spec word_overlap_eq_spec calculate_text_similarity_def Let_def)

end
